theory Spec2Isabelle
  imports Complex_Main "HOL-Library.AList"
begin

unbundle bit_operations_syntax

section \<open>Helmet detection: the inference pipeline and the serving shell\<close>

text \<open>
  A shallow embedding of \<^verbatim>\<open>src/Inference.py\<close> and of the request handlers of
  \<^verbatim>\<open>src/Api.py\<close>. Everything the Python code obtains from a library (the detector of
  ultralytics, the decoders and encoders of OpenCV, the directory listings of the operating
  system) is a parameter of the model; what the repository's own code does with those
  values is translated statement by statement. An exception is a value \<open>Inl e\<close>; a
  function with effects returns its outcome together with the world it leaves behind, so
  that the state at the moment of a raise can be inspected.
\<close>

subsection \<open>Exceptions\<close>

datatype error =
    FileNotFoundError string
  | TypeError
  | FileExistsError
  | NotADirectoryError
  | LibraryError string
  | HTTPException nat string

subsection \<open>Paths (pathlib, POSIX flavour)\<close>

text \<open>
  A path is its anchor (absolute or not) and its components. \<open>Path\<close> splits a string
  at \<open>/\<close> and drops empty and \<open>.\<close> components, as \<^verbatim>\<open>pathlib.PurePosixPath\<close> does.
\<close>

datatype path = PurePath (anchor: bool) (parts: "string list")

fun split_at :: "char \<Rightarrow> string \<Rightarrow> string \<Rightarrow> string list" where
  "split_at c cur [] = [rev cur]"
| "split_at c cur (x # xs) =
     (if x = c then rev cur # split_at c [] xs else split_at c (x # cur) xs)"

definition Path :: "string \<Rightarrow> path" where
  "Path s = PurePath (take 1 s = ''/'')
              (filter (\<lambda>p. p \<noteq> [] \<and> p \<noteq> ''.'') (split_at (CHR ''/'') [] s))"

definition joinpath :: "path \<Rightarrow> string \<Rightarrow> path" where
  \<comment> \<open>\<^verbatim>\<open>p / name\<close> for a single relative component \<open>name\<close>\<close>
  "joinpath p n = PurePath (anchor p) (parts p @ [n])"

definition name :: "path \<Rightarrow> string" where
  "name p = (case parts p of [] \<Rightarrow> [] | _ \<Rightarrow> last (parts p))"

fun rfind :: "char \<Rightarrow> string \<Rightarrow> int" where
  \<comment> \<open>\<^verbatim>\<open>str.rfind\<close>: the greatest index of the character, or \<open>-1\<close>\<close>
  "rfind c [] = - 1"
| "rfind c (x # xs) =
     (let r = rfind c xs in if 0 \<le> r then r + 1 else if x = c then 0 else - 1)"

definition stem :: "path \<Rightarrow> string" where
  \<comment> \<open>\<^verbatim>\<open>i = name.rfind('.'); name[:i] if 0 < i < len(name) - 1 else name\<close>\<close>
  "stem p =
     (let n = name p; i = rfind (CHR ''.'') n
      in if 0 < i \<and> i < int (length n) - 1 then take (nat i) n else n)"

subsection \<open>Globbing\<close>

text \<open>
  The patterns of the program have the shape \<open>prefix*suffix\<close> with literal prefix and
  suffix. \<^verbatim>\<open>Path.glob\<close> matches the names of the directory's entries case-sensitively
  on POSIX, hidden files included, and yields them in the order the operating system
  lists the directory.
\<close>

definition fnmatch_star :: "string \<Rightarrow> string \<Rightarrow> string \<Rightarrow> bool" where
  "fnmatch_star pre suf n =
     (length pre + length suf \<le> length n \<and> take (length pre) n = pre
      \<and> take (length suf) (rev n) = rev suf)"

definition glob_star :: "string \<Rightarrow> string \<Rightarrow> string list \<Rightarrow> string list" where
  "glob_star pre suf listing = filter (fnmatch_star pre suf) listing"

subsection \<open>Default model resolution\<close>

text \<open>
  \<^verbatim>\<open>max(model_files, key=...)\<close> keeps the first of the entries with the greatest key.
\<close>

fun max_by :: "('a \<Rightarrow> 'k::linorder) \<Rightarrow> 'a \<Rightarrow> 'a list \<Rightarrow> 'a" where
  "max_by key best [] = best"
| "max_by key best (x # xs) = max_by key (if key best < key x then x else best) xs"

text \<open>
  The directory \<^verbatim>\<open>models\<close> is given as the list of its entries with their
  modification times, or \<open>None\<close> when it does not exist.
\<close>

type_synonym models_dir = "(string \<times> rat) list option"

definition model_files :: "(string \<times> rat) list \<Rightarrow> (string \<times> rat) list" where
  "model_files entries =
     filter (\<lambda>e. fnmatch_star ''helmet_detector_best_'' ''.pt'' (fst e)) entries"

definition find_latest_model :: "models_dir \<Rightarrow> error + path" where
  \<comment> \<open>\<^verbatim>\<open>Inference.py\<close>\<close>
  "find_latest_model md =
     (case md of
        None \<Rightarrow> Inl (FileNotFoundError ''No models directory found.'')
      | Some entries \<Rightarrow>
          (case model_files entries of
             [] \<Rightarrow> Inl (FileNotFoundError ''No trained models found.'')
           | f # fs \<Rightarrow> Inr (joinpath (Path ''models'') (fst (max_by snd f fs)))))"

definition api_find_latest_model :: "models_dir \<Rightarrow> path option" where
  \<comment> \<open>\<^verbatim>\<open>Api.py\<close>: the same search, with \<open>None\<close> in place of the exception\<close>
  "api_find_latest_model md =
     (case md of
        None \<Rightarrow> None
      | Some entries \<Rightarrow>
          (case model_files entries of
             [] \<Rightarrow> None
           | f # fs \<Rightarrow> Some (joinpath (Path ''models'') (fst (max_by snd f fs)))))"

subsection \<open>The detector and OpenCV\<close>

text \<open>
  \<^verbatim>\<open>model.predict(source, conf, iou)[0]\<close> is a parameter: it may raise, and otherwise
  gives the boxes it found and the image \<^verbatim>\<open>results.plot()\<close> draws. Images (numpy
  arrays) are values of a type \<open>'i\<close>, boxes of a type \<open>'b\<close>. A function of its
  arguments, the detector is deterministic, as the specification assumes.
\<close>

datatype 'i source = NoSource | FromPath path | FromArray 'i

record ('b, 'i) results =
  boxes :: "'b list"
  plot :: 'i

type_synonym ('b, 'i) model = "'i source \<Rightarrow> rat \<Rightarrow> rat \<Rightarrow> error + ('b, 'i) results"

record 'i cv2 =
  cvtColor_RGB2BGR :: "'i \<Rightarrow> 'i"
  imdecode :: "string \<Rightarrow> error + 'i option"
  shape :: "'i \<Rightarrow> nat \<times> nat"

subsection \<open>The world: directories, files, capture and encoder handles\<close>

record capture =
  c_opened :: bool
  c_releases :: nat

record 'i writer =
  w_path :: path
  w_fps :: int
  w_size :: "int \<times> int"
  w_frames :: "'i list"
  w_releases :: nat

record 'i world =
  dirs :: "path list"
  files :: "(path \<times> 'i) list"
  cap :: "capture option"
  out :: "'i writer option"
  shown :: "'i list"

definition is_dir :: "'i world \<Rightarrow> path \<Rightarrow> bool" where
  \<comment> \<open>the current directory and the root always exist\<close>
  "is_dir w p = (parts p = [] \<or> p \<in> set (dirs w))"

definition is_file :: "'i world \<Rightarrow> path \<Rightarrow> bool" where
  "is_file w p = (map_of (files w) p \<noteq> None)"

definition parent :: "path \<Rightarrow> path" where
  "parent p = PurePath (anchor p) (butlast (parts p))"

text \<open>
  \<^verbatim>\<open>Path(save_dir).mkdir(parents=True, exist_ok=True)\<close> creates the directory and
  each missing ancestor, and raises when a file stands in the way.
\<close>

fun mkdir_from :: "bool \<Rightarrow> string list \<Rightarrow> string list \<Rightarrow> 'i world \<Rightarrow> error + 'i world" where
  "mkdir_from a pre [] w = Inr w"
| "mkdir_from a pre (c # cs) w =
     (let p = PurePath a (pre @ [c])
      in if is_file w p then Inl (if cs = [] then FileExistsError else NotADirectoryError)
         else mkdir_from a (pre @ [c]) cs
                (if p \<in> set (dirs w) then w else w\<lparr>dirs := dirs w @ [p]\<rparr>))"

definition mkdir_parents :: "path \<Rightarrow> 'i world \<Rightarrow> error + 'i world" where
  "mkdir_parents p w = mkdir_from (anchor p) [] (parts p) w"

text \<open>
  \<^verbatim>\<open>cv2.imwrite\<close> replaces the file at the path; where it cannot write (no such
  directory, or a directory at the path) it returns \<^verbatim>\<open>False\<close>, which the callers
  ignore, and the world stays as it is.
\<close>

definition imwrite :: "path \<Rightarrow> 'i \<Rightarrow> 'i world \<Rightarrow> 'i world" where
  "imwrite p img w =
     (if is_dir w (parent p) \<and> p \<notin> set (dirs w)
      then w\<lparr>files := AList.update p img (files w)\<rparr> else w)"

subsection \<open>\<^verbatim>\<open>run_inference_image\<close>\<close>

definition run_inference_image ::
  "'i cv2 \<Rightarrow> ('b, 'i) model \<Rightarrow> path option \<Rightarrow> rat \<Rightarrow> string \<Rightarrow> 'i world
     \<Rightarrow> (error + path \<times> ('b, 'i) results) \<times> 'i world" where
  "run_inference_image cv model image_path conf_threshold save_dir w =
     (case mkdir_parents (Path save_dir) w of
        Inl e \<Rightarrow> (Inl e, w)
      | Inr w1 \<Rightarrow>
          (case model (case image_path of None \<Rightarrow> NoSource | Some p \<Rightarrow> FromPath p)
                  conf_threshold (1 / 2) of
             Inl e \<Rightarrow> (Inl e, w1)
           | Inr results \<Rightarrow>
               (let annotated_image = plot results
                in case image_path of
                     None \<Rightarrow> (Inl TypeError, w1)
                   | Some p \<Rightarrow>
                       (let output_name = stem p @ ''_detected.jpg'';
                            output_path = joinpath (Path save_dir) output_name;
                            annotated_bgr = cvtColor_RGB2BGR cv annotated_image
                        in (Inr (output_path, results),
                            imwrite output_path annotated_bgr w1)))))"

subsection \<open>\<^verbatim>\<open>run_inference_video\<close>\<close>

text \<open>
  What \<^verbatim>\<open>cv2.VideoCapture(path)\<close> finds at a path: nothing it can open, or the
  properties \<^verbatim>\<open>cap.get\<close> reports and the frames \<^verbatim>\<open>cap.read\<close> delivers before it
  returns \<^verbatim>\<open>ret = False\<close>.
\<close>

record 'i video =
  v_fps :: rat
  v_width :: rat
  v_height :: rat
  v_frames :: "'i list"

definition py_int :: "rat \<Rightarrow> int" where
  \<comment> \<open>\<^verbatim>\<open>int(x)\<close> truncates towards zero\<close>
  "py_int x = (if 0 \<le> x then \<lfloor>x\<rfloor> else \<lceil>x\<rceil>)"

text \<open>
  The locals of \<^verbatim>\<open>run_inference_video\<close> at its return. The function returns
  \<^verbatim>\<open>output_path\<close> and prints the counters; the model returns them all. The quotient
  is the exact one, where Python rounds it to the nearest double.
\<close>

record run_stats =
  stat_frame_count :: nat
  stat_detection_count :: nat
  stat_avg_detections :: rat

definition write_frame :: "'i \<Rightarrow> 'i world \<Rightarrow> 'i world" where
  \<comment> \<open>\<^verbatim>\<open>out.write(annotated_frame)\<close>\<close>
  "write_frame img w =
     w\<lparr>out := map_option (\<lambda>vw. vw\<lparr>w_frames := w_frames vw @ [img]\<rparr>) (out w)\<rparr>"

fun video_loop ::
  "('b, 'i) model \<Rightarrow> rat \<Rightarrow> 'i list \<Rightarrow> 'i world \<Rightarrow> nat \<Rightarrow> nat
     \<Rightarrow> (error + nat \<times> nat) \<times> 'i world" where
  "video_loop model conf_threshold [] w frame_count detection_count =
     (Inr (frame_count, detection_count), w)"
| "video_loop model conf_threshold (frame # rest) w frame_count detection_count =
     (case model (FromArray frame) conf_threshold (1 / 2) of
        Inl e \<Rightarrow> (Inl e, w)
      | Inr results \<Rightarrow>
          video_loop model conf_threshold rest (write_frame (plot results) w)
            (frame_count + 1) (detection_count + length (boxes results)))"

definition release_cap :: "'i world \<Rightarrow> 'i world" where
  "release_cap w =
     w\<lparr>cap := map_option (\<lambda>c. c\<lparr>c_opened := False, c_releases := c_releases c + 1\<rparr>) (cap w)\<rparr>"

definition release_out :: "'i world \<Rightarrow> 'i world" where
  "release_out w =
     w\<lparr>out := map_option (\<lambda>vw. vw\<lparr>w_releases := w_releases vw + 1\<rparr>) (out w)\<rparr>"

definition py_str :: "string option \<Rightarrow> string" where
  "py_str s = (case s of None \<Rightarrow> ''None'' | Some x \<Rightarrow> x)"

definition run_inference_video ::
  "(string \<Rightarrow> 'i video option) \<Rightarrow> ('b, 'i) model \<Rightarrow> string option \<Rightarrow> rat \<Rightarrow> string
     \<Rightarrow> 'i world \<Rightarrow> (error + path \<times> run_stats) \<times> 'i world" where
  "run_inference_video videos model video_path conf_threshold save_dir w =
     (case mkdir_parents (Path save_dir) w of
        Inl e \<Rightarrow> (Inl e, w)
      | Inr w1 \<Rightarrow>
          (let v = videos (py_str video_path);
               w2 = w1\<lparr>cap := Some \<lparr>c_opened = (v \<noteq> None), c_releases = 0\<rparr>\<rparr>;
               fps = (case v of None \<Rightarrow> 0 | Some x \<Rightarrow> py_int (v_fps x));
               width = (case v of None \<Rightarrow> 0 | Some x \<Rightarrow> py_int (v_width x));
               height = (case v of None \<Rightarrow> 0 | Some x \<Rightarrow> py_int (v_height x))
           in case video_path of
                None \<Rightarrow> (Inl TypeError, w2)
              | Some vp \<Rightarrow>
                  (let output_name = stem (Path vp) @ ''_detected.mp4'';
                       output_path = joinpath (Path save_dir) output_name;
                       w3 = w2\<lparr>out := Some \<lparr>w_path = output_path, w_fps = fps,
                                 w_size = (width, height), w_frames = [], w_releases = 0\<rparr>\<rparr>
                   in case video_loop model conf_threshold
                             (case v of None \<Rightarrow> [] | Some x \<Rightarrow> v_frames x) w3 0 0 of
                        (Inl e, w4) \<Rightarrow> (Inl e, w4)
                      | (Inr (frame_count, detection_count), w4) \<Rightarrow>
                          (Inr (output_path,
                                \<lparr>stat_frame_count = frame_count,
                                 stat_detection_count = detection_count,
                                 stat_avg_detections =
                                   (if frame_count \<noteq> 0
                                    then of_nat detection_count / of_nat frame_count else 0)\<rparr>),
                           release_out (release_cap w4)))))"

subsection \<open>\<^verbatim>\<open>run_inference_webcam\<close>\<close>

text \<open>
  The camera is what device 0 gives: \<open>None\<close> when it cannot be opened, otherwise the
  frames \<^verbatim>\<open>cap.read\<close> delivers before it returns \<^verbatim>\<open>ret = False\<close>, each with the
  key code \<^verbatim>\<open>cv2.waitKey(1)\<close> returns after the frame is shown (\<open>-1\<close> for no key).
\<close>

fun webcam_loop ::
  "('b, 'i) model \<Rightarrow> rat \<Rightarrow> ('i \<times> int) list \<Rightarrow> 'i world \<Rightarrow> (error + unit) \<times> 'i world" where
  "webcam_loop model conf_threshold [] w = (Inr (), w)"
| "webcam_loop model conf_threshold ((frame, key) # rest) w =
     (case model (FromArray frame) conf_threshold (1 / 2) of
        Inl e \<Rightarrow> (Inl e, w)
      | Inr results \<Rightarrow>
          (let w' = w\<lparr>shown := shown w @ [plot results]\<rparr>
           in if key AND 255 = 113 then (Inr (), w')
              else webcam_loop model conf_threshold rest w'))"

definition run_inference_webcam ::
  "('i \<times> int) list option \<Rightarrow> ('b, 'i) model \<Rightarrow> rat \<Rightarrow> 'i world
     \<Rightarrow> (error + unit) \<times> 'i world" where
  "run_inference_webcam camera model conf_threshold w =
     (let w1 = w\<lparr>cap := Some \<lparr>c_opened = (camera \<noteq> None), c_releases = 0\<rparr>\<rparr>
      in case webcam_loop model conf_threshold
                (case camera of None \<Rightarrow> [] | Some events \<Rightarrow> events) w1 of
           (Inl e, w2) \<Rightarrow> (Inl e, w2)
         | (Inr u, w2) \<Rightarrow> (Inr (), release_cap w2))"

subsection \<open>\<^verbatim>\<open>batch_inference\<close>\<close>

definition upper :: "string \<Rightarrow> string" where
  \<comment> \<open>\<^verbatim>\<open>str.upper\<close> on ASCII letters\<close>
  "upper s =
     map (\<lambda>c. let n = (of_char c :: nat)
               in if 97 \<le> n \<and> n \<le> 122 then char_of (n - 32) else c) s"

definition image_extensions :: "string list" where
  "image_extensions = [''.jpg'', ''.jpeg'', ''.png'', ''.bmp'', ''.webp'']"

text \<open>
  The directory is the list of its entries' names in the order the operating system
  lists them. Each extension contributes the matches of \<^verbatim>\<open>*ext\<close>, then those of
  \<^verbatim>\<open>*EXT\<close>.
\<close>

definition image_names :: "string list \<Rightarrow> string list" where
  "image_names listing =
     concat (map (\<lambda>ext. glob_star [] ext listing @ glob_star [] (upper ext) listing)
               image_extensions)"

definition image_files :: "path \<Rightarrow> string list \<Rightarrow> path list" where
  "image_files input_path listing = map (joinpath input_path) (image_names listing)"

text \<open>
  The specification's notion of an eligible file, for comparison with \<open>image_names\<close>:
  the name ends with an extension of the allow-list, compared case-insensitively
  (\<open>lower\<close> is \<^verbatim>\<open>str.lower\<close> on ASCII letters).
\<close>

definition lower :: "string \<Rightarrow> string" where
  "lower s =
     map (\<lambda>c. let n = (of_char c :: nat)
               in if 65 \<le> n \<and> n \<le> 90 then char_of (n + 32) else c) s"

definition spec_eligible :: "string \<Rightarrow> bool" where
  "spec_eligible n =
     (\<exists>ext \<in> set image_extensions.
        length ext \<le> length n \<and> lower (drop (length n - length ext) n) = ext)"

record batch_item =
  r_image :: string
  r_detections :: nat
  r_output :: path

fun batch_loop ::
  "'i cv2 \<Rightarrow> ('b, 'i) model \<Rightarrow> rat \<Rightarrow> string \<Rightarrow> path list \<Rightarrow> batch_item list \<Rightarrow> 'i world
     \<Rightarrow> (error + batch_item list) \<times> 'i world" where
  "batch_loop cv model conf_threshold save_dir [] results_list w = (Inr results_list, w)"
| "batch_loop cv model conf_threshold save_dir (image_path # rest) results_list w =
     (case run_inference_image cv model (Some image_path) conf_threshold save_dir w of
        (Inl e, w') \<Rightarrow> (Inl e, w')
      | (Inr (output_path, results), w') \<Rightarrow>
          batch_loop cv model conf_threshold save_dir rest
            (results_list @ [\<lparr>r_image = name image_path,
                               r_detections = length (boxes results),
                               r_output = output_path\<rparr>]) w')"

text \<open>
  \<open>listdir\<close> gives the entries of a path: \<open>None\<close> where nothing exists, no entry
  where the path is not a directory.
\<close>

definition batch_inference ::
  "(path \<Rightarrow> string list option) \<Rightarrow> 'i cv2 \<Rightarrow> ('b, 'i) model \<Rightarrow> string option \<Rightarrow> rat
     \<Rightarrow> string \<Rightarrow> 'i world \<Rightarrow> (error + batch_item list) \<times> 'i world" where
  "batch_inference listdir cv model input_dir conf_threshold save_dir w =
     (case input_dir of
        None \<Rightarrow> (Inl TypeError, w)
      | Some d \<Rightarrow>
          (let input_path = Path d
           in case listdir input_path of
                None \<Rightarrow> (Inl (FileNotFoundError (''Directory not found: '' @ d)), w)
              | Some listing \<Rightarrow>
                  (if image_files input_path listing = []
                   then (Inl (FileNotFoundError (''No images found in '' @ d)), w)
                   else batch_loop cv model conf_threshold save_dir
                          (image_files input_path listing) [] w)))"

subsection \<open>The command line\<close>

datatype mode = Image | Video | Webcam | Batch

record args =
  a_source :: "string option"
  a_type :: mode
  a_conf :: rat
  a_model :: "string option"

record ('b, 'i) env =
  e_models :: models_dir
  e_YOLO :: "path \<Rightarrow> error + ('b, 'i) model"
  e_cv :: "'i cv2"
  e_videos :: "string \<Rightarrow> 'i video option"
  e_camera :: "('i \<times> int) list option"
  e_listdir :: "path \<Rightarrow> string list option"

definition ignore :: "(error + 'a) \<times> 'w \<Rightarrow> (error + unit) \<times> 'w" where
  "ignore r = (case r of (Inl e, w) \<Rightarrow> (Inl e, w) | (Inr x, w) \<Rightarrow> (Inr (), w))"

definition try_body :: "('b, 'i) env \<Rightarrow> args \<Rightarrow> 'i world \<Rightarrow> (error + unit) \<times> 'i world" where
  \<comment> \<open>the body of the \<^verbatim>\<open>try\<close> of \<^verbatim>\<open>main\<close>\<close>
  "try_body env a w =
     (case (case a_model a of
              None \<Rightarrow> find_latest_model (e_models env)
            | Some m \<Rightarrow> if m = [] then find_latest_model (e_models env) else Inr (Path m)) of
        Inl e \<Rightarrow> (Inl e, w)
      | Inr model_path \<Rightarrow>
          (case e_YOLO env model_path of
             Inl e \<Rightarrow> (Inl e, w)
           | Inr model \<Rightarrow>
               (case a_type a of
                  Image \<Rightarrow>
                    ignore (run_inference_image (e_cv env) model (map_option Path (a_source a))
                              (a_conf a) ''results/inference'' w)
                | Video \<Rightarrow>
                    ignore (run_inference_video (e_videos env) model (a_source a) (a_conf a)
                              ''results/inference'' w)
                | Webcam \<Rightarrow> run_inference_webcam (e_camera env) model (a_conf a) w
                | Batch \<Rightarrow>
                    ignore (batch_inference (e_listdir env) (e_cv env) model (a_source a)
                              (a_conf a) ''results/inference'' w))))"

text \<open>
  \<^verbatim>\<open>main\<close> catches every \<^verbatim>\<open>Exception\<close> of the body and prints it after
  \<^verbatim>\<open>Inference failed:\<close>; the model returns the exception it printed, if any.
\<close>

definition main :: "('b, 'i) env \<Rightarrow> args \<Rightarrow> 'i world \<Rightarrow> error option \<times> 'i world" where
  "main env a w =
     (case try_body env a w of (Inl e, w') \<Rightarrow> (Some e, w') | (Inr u, w') \<Rightarrow> (None, w'))"

text \<open>
  The script: with no argument it prints a usage line, otherwise it calls \<^verbatim>\<open>main\<close>
  on the parsed arguments. Nothing calls \<^verbatim>\<open>sys.exit\<close>, so the interpreter ends with
  status 0 on both paths. (An argument list that \<^verbatim>\<open>argparse\<close> rejects ends the process
  inside \<^verbatim>\<open>parse_args\<close>, before the \<^verbatim>\<open>try\<close>; the model starts from parsed
  arguments.)
\<close>

record 'i exit =
  exit_status :: int
  printed_failure :: "error option"
  final_world :: "'i world"

definition script :: "('b, 'i) env \<Rightarrow> args option \<Rightarrow> 'i world \<Rightarrow> 'i exit" where
  "script env argv w =
     (case argv of
        None \<Rightarrow> \<lparr>exit_status = 0, printed_failure = None, final_world = w\<rparr>
      | Some a \<Rightarrow>
          (case main env a w of
             (failure, w') \<Rightarrow>
               \<lparr>exit_status = 0, printed_failure = failure, final_world = w'\<rparr>))"

subsection \<open>The serving shell (\<^verbatim>\<open>Api.py\<close>)\<close>


text \<open>
  \<^verbatim>\<open>load_model\<close>, without the bookkeeping of \<^verbatim>\<open>model_info\<close>; at start-up
  \<^verbatim>\<open>lifespan\<close> calls it and leaves the global \<^verbatim>\<open>model\<close> at \<^verbatim>\<open>None\<close> when it
  raises.
\<close>

definition load_model ::
  "models_dir \<Rightarrow> (path \<Rightarrow> error + ('b, 'i) model) \<Rightarrow> path option \<Rightarrow> error + ('b, 'i) model" where
  "load_model md YOLO model_path =
     (case model_path of
        None \<Rightarrow>
          (case api_find_latest_model md of
             None \<Rightarrow> Inl (FileNotFoundError ''No trained model found.'')
           | Some p \<Rightarrow> YOLO p)
      | Some p \<Rightarrow> YOLO p)"

definition lifespan ::
  "models_dir \<Rightarrow> (path \<Rightarrow> error + ('b, 'i) model) \<Rightarrow> ('b, 'i) model option" where
  "lifespan md YOLO = (case load_model md YOLO None of Inl e \<Rightarrow> None | Inr m \<Rightarrow> Some m)"




subsection \<open>Sample inputs\<close>

text \<open>
  A world with nothing in it, and stand-ins for the libraries with images as numbers:
  the detector cannot read \<^verbatim>\<open>broken.jpg\<close> nor the frame 13, and finds as many boxes
  in a frame as the frame's number; the decoder raises on an empty buffer, as
  \<^verbatim>\<open>cv2.imdecode\<close> does, and returns \<^verbatim>\<open>None\<close> for bytes that are no image.
\<close>

definition empty_world :: "nat world" where
  "empty_world = \<lparr>dirs = [], files = [], cap = None, out = None, shown = []\<rparr>"

definition sample_cv :: "nat cv2" where
  "sample_cv =
     \<lparr>cvtColor_RGB2BGR = (\<lambda>i. i),
      imdecode = (\<lambda>s. if s = [] then Inl (LibraryError ''imdecode: empty buffer'')
                       else if take 2 s = ''P6'' then Inr (Some (length s)) else Inr None),
      shape = (\<lambda>i. (i, i))\<rparr>"

definition sample_model :: "(unit, nat) model" where
  "sample_model src conf iou =
     (case src of
        NoSource \<Rightarrow> Inr \<lparr>boxes = [], plot = 0\<rparr>
      | FromPath p \<Rightarrow>
          if name p = ''broken.jpg'' then Inl (LibraryError ''cannot read image'')
          else Inr \<lparr>boxes = [()], plot = 1\<rparr>
      | FromArray a \<Rightarrow>
          if a = 13 then Inl (LibraryError ''bad frame'')
          else Inr \<lparr>boxes = replicate a (), plot = a\<rparr>)"

text \<open>
  Two video files, the second with a frame the detector rejects, a camera whose user
  presses \<^verbatim>\<open>q\<close> at the second frame, and three directories.
\<close>

definition sample_videos :: "string \<Rightarrow> nat video option" where
  "sample_videos s =
     (if s = ''clip.mp4''
      then Some \<lparr>v_fps = 30, v_width = 640, v_height = 480, v_frames = [2, 0, 5]\<rparr>
      else if s = ''bad.mp4''
      then Some \<lparr>v_fps = 25, v_width = 320, v_height = 240, v_frames = [2, 13, 5]\<rparr>
      else None)"

definition sample_camera :: "(nat \<times> int) list option" where
  "sample_camera = Some [(1, - 1), (2, 113), (3, - 1)]"

definition sample_listdir :: "path \<Rightarrow> string list option" where
  "sample_listdir p =
     (if p = Path ''in'' then Some [''b.png'', ''a.jpg'']
      else if p = Path ''mixed'' then Some [''a.jpg'', ''broken.jpg'', ''c.png'']
      else if p = Path ''shots'' then Some [''b.jpg'', ''a.PNG'', ''a.jpg'', ''notes.txt'']
      else None)"

definition sample_env :: "(unit, nat) env" where
  "sample_env =
     \<lparr>e_models = None, e_YOLO = (\<lambda>p. Inr sample_model), e_cv = sample_cv,
      e_videos = sample_videos, e_camera = sample_camera, e_listdir = sample_listdir\<rparr>"

section \<open>Properties\<close>

lemma max_by_mem: "max_by key b xs \<in> set (b # xs)"
  by (induction xs arbitrary: b) auto

lemma max_by_ge_best: "key b \<le> key (max_by key b xs)"
proof (induction xs arbitrary: b)
  case Nil
  show ?case by simp
next
  case (Cons x xs)
  have "key b \<le> key (if key b < key x then x else b)" by auto
  also have "\<dots> \<le> key (max_by key (if key b < key x then x else b) xs)"
    by (rule Cons.IH)
  finally show ?case by simp
qed

lemma max_by_greatest: "y \<in> set (b # xs) \<Longrightarrow> key y \<le> key (max_by key b xs)"
proof (induction xs arbitrary: b)
  case Nil
  then show ?case by simp
next
  case (Cons x xs)
  let ?b = "if key b < key x then x else b"
  from Cons.prems consider "y = b" | "y = x" | "y \<in> set xs" by auto
  then show ?case
  proof cases
    case 1
    have "key b \<le> key ?b" by auto
    also have "\<dots> \<le> key (max_by key ?b xs)" by (rule max_by_ge_best)
    finally show ?thesis using 1 by simp
  next
    case 2
    have "key x \<le> key ?b" by auto
    also have "\<dots> \<le> key (max_by key ?b xs)" by (rule max_by_ge_best)
    finally show ?thesis using 2 by simp
  next
    case 3
    then have "y \<in> set (?b # xs)" by simp
    then have "key y \<le> key (max_by key ?b xs)" by (rule Cons.IH)
    then show ?thesis by simp
  qed
qed

subsection \<open>Creating directories\<close>

lemma mkdir_from_files:
  "mkdir_from a pre cs w = Inr w' \<Longrightarrow>
     files w' = files w \<and> cap w' = cap w \<and> out w' = out w \<and> shown w' = shown w"
proof (induction cs arbitrary: pre w)
  case Nil
  then show ?case by simp
next
  case (Cons c cs)
  then show ?case
    by (auto simp: Let_def is_file_def split: if_splits dest!: Cons.IH)
qed

lemma mkdir_from_dirs:
  "mkdir_from a pre cs w = Inr w' \<Longrightarrow>
     set (dirs w') = set (dirs w) \<union> {PurePath a (pre @ take k cs) | k. 0 < k \<and> k \<le> length cs}"
proof (induction cs arbitrary: pre w)
  case Nil
  then show ?case by simp
next
  case (Cons c cs)
  let ?p = "PurePath a (pre @ [c])"
  let ?w = "if ?p \<in> set (dirs w) then w else w\<lparr>dirs := dirs w @ [?p]\<rparr>"
  from Cons.prems have rec: "mkdir_from a (pre @ [c]) cs ?w = Inr w'"
    by (simp add: Let_def split: if_splits)
  have "set (dirs w') = set (dirs ?w) \<union>
          {PurePath a ((pre @ [c]) @ take k cs) | k. 0 < k \<and> k \<le> length cs}"
    by (rule Cons.IH [OF rec])
  moreover have "set (dirs ?w) = insert ?p (set (dirs w))" by auto
  moreover have "{PurePath a (pre @ take k (c # cs)) | k. 0 < k \<and> k \<le> length (c # cs)}
       = insert ?p {PurePath a ((pre @ [c]) @ take k cs) | k. 0 < k \<and> k \<le> length cs}"
  proof (intro set_eqI iffI)
    fix x
    assume "x \<in> {PurePath a (pre @ take k (c # cs)) | k. 0 < k \<and> k \<le> length (c # cs)}"
    then obtain k where k: "x = PurePath a (pre @ take k (c # cs))" "0 < k" "k \<le> length (c # cs)"
      by blast
    then obtain j where j: "k = Suc j" by (cases k) auto
    show "x \<in> insert ?p {PurePath a ((pre @ [c]) @ take k cs) | k. 0 < k \<and> k \<le> length cs}"
    proof (cases j)
      case 0
      with k j show ?thesis by simp
    next
      case (Suc i)
      with k j have "x = PurePath a ((pre @ [c]) @ take j cs)" "0 < j" "j \<le> length cs" by auto
      then show ?thesis by blast
    qed
  next
    fix x
    assume "x \<in> insert ?p {PurePath a ((pre @ [c]) @ take k cs) | k. 0 < k \<and> k \<le> length cs}"
    then consider "x = ?p" | k where "x = PurePath a ((pre @ [c]) @ take k cs)" "0 < k" "k \<le> length cs"
      by blast
    then show "x \<in> {PurePath a (pre @ take k (c # cs)) | k. 0 < k \<and> k \<le> length (c # cs)}"
    proof cases
      case 1
      then have "x = PurePath a (pre @ take 1 (c # cs))" "0 < (1::nat)" "1 \<le> length (c # cs)"
        by auto
      then show ?thesis by blast
    next
      case 2
      then have "x = PurePath a (pre @ take (Suc k) (c # cs))" "0 < Suc k" "Suc k \<le> length (c # cs)"
        by auto
      then show ?thesis by blast
    qed
  qed
  ultimately show ?case by auto
qed

lemma mkdir_from_not_file:
  "mkdir_from a pre cs w = Inr w' \<Longrightarrow> 0 < k \<Longrightarrow> k \<le> length cs \<Longrightarrow>
     \<not> is_file w (PurePath a (pre @ take k cs))"
proof (induction cs arbitrary: pre w k)
  case Nil
  then show ?case by simp
next
  case (Cons c cs)
  let ?p = "PurePath a (pre @ [c])"
  let ?w = "if ?p \<in> set (dirs w) then w else w\<lparr>dirs := dirs w @ [?p]\<rparr>"
  from Cons.prems have nf: "\<not> is_file w ?p" and rec: "mkdir_from a (pre @ [c]) cs ?w = Inr w'"
    by (simp_all add: Let_def split: if_splits)
  obtain j where j: "k = Suc j" using Cons.prems by (cases k) auto
  show ?case
  proof (cases j)
    case 0
    with j nf show ?thesis by simp
  next
    case (Suc i)
    with j Cons.prems have "0 < j" "j \<le> length cs" by auto
    from Cons.IH [OF rec this] have "\<not> is_file ?w (PurePath a ((pre @ [c]) @ take j cs))" .
    moreover have "files ?w = files w" by simp
    ultimately show ?thesis using j by (simp add: is_file_def)
  qed
qed

lemma mkdir_from_noop:
  "(\<And>k. 0 < k \<Longrightarrow> k \<le> length cs \<Longrightarrow>
      PurePath a (pre @ take k cs) \<in> set (dirs w) \<and> \<not> is_file w (PurePath a (pre @ take k cs)))
   \<Longrightarrow> mkdir_from a pre cs w = Inr w"
proof (induction cs arbitrary: pre)
  case Nil
  show ?case by simp
next
  case (Cons c cs)
  have first: "PurePath a (pre @ [c]) \<in> set (dirs w) \<and> \<not> is_file w (PurePath a (pre @ [c]))"
    using Cons.prems [of 1] by simp
  have rest: "mkdir_from a (pre @ [c]) cs w = Inr w"
  proof (rule Cons.IH)
    fix k assume "0 < k" "k \<le> length cs"
    then show "PurePath a ((pre @ [c]) @ take k cs) \<in> set (dirs w)
        \<and> \<not> is_file w (PurePath a ((pre @ [c]) @ take k cs))"
      using Cons.prems [of "Suc k"] by simp
  qed
  from first rest show ?case by (simp add: Let_def)
qed

subsection \<open>The per-image function\<close>

lemma mkdir_parents_ok:
  assumes "mkdir_parents p w = Inr w1"
  shows "files w1 = files w" and "cap w1 = cap w" and "out w1 = out w" and "shown w1 = shown w"
    and "set (dirs w) \<subseteq> set (dirs w1)" and "is_dir w1 p"
    and "q \<in> set (dirs w1) \<Longrightarrow> q \<notin> set (dirs w) \<Longrightarrow> length (parts q) \<le> length (parts p)"
proof -
  from assms have m: "mkdir_from (anchor p) [] (parts p) w = Inr w1"
    by (simp add: mkdir_parents_def)
  from mkdir_from_files [OF m]
  show "files w1 = files w" and "cap w1 = cap w" and "out w1 = out w" and "shown w1 = shown w"
    by simp_all
  note d = mkdir_from_dirs [OF m]
  from d show "set (dirs w) \<subseteq> set (dirs w1)" by auto
  show "is_dir w1 p"
  proof (cases "parts p = []")
    case True
    then show ?thesis by (simp add: is_dir_def)
  next
    case False
    then have "PurePath (anchor p) ([] @ take (length (parts p)) (parts p)) \<in> set (dirs w1)"
      using d by blast
    then show ?thesis by (simp add: is_dir_def)
  qed
  show "length (parts q) \<le> length (parts p)" if "q \<in> set (dirs w1)" "q \<notin> set (dirs w)"
  proof -
    from that d obtain k where "q = PurePath (anchor p) ([] @ take k (parts p))" by auto
    then show ?thesis by simp
  qed
qed

lemma mkdir_parents_again:
  assumes m: "mkdir_parents p w = Inr w1"
    and d: "dirs w2 = dirs w1"
    and f: "\<And>q. is_file w2 q \<Longrightarrow> is_file w1 q \<or> length (parts p) < length (parts q)"
  shows "mkdir_parents p w2 = Inr w2"
proof -
  from m have m': "mkdir_from (anchor p) [] (parts p) w = Inr w1"
    by (simp add: mkdir_parents_def)
  have "mkdir_from (anchor p) [] (parts p) w2 = Inr w2"
  proof (rule mkdir_from_noop)
    fix k assume k: "0 < k" "k \<le> length (parts p)"
    let ?q = "PurePath (anchor p) ([] @ take k (parts p))"
    have "?q \<in> set (dirs w1)" using mkdir_from_dirs [OF m'] k by blast
    then have in_dirs: "?q \<in> set (dirs w2)" using d by simp
    have "\<not> is_file w ?q" by (rule mkdir_from_not_file [OF m' k])
    then have "\<not> is_file w1 ?q" using mkdir_from_files [OF m'] by (simp add: is_file_def)
    moreover have "\<not> length (parts p) < length (parts ?q)" by simp
    ultimately have "\<not> is_file w2 ?q" using f [of ?q] by blast
    with in_dirs show "?q \<in> set (dirs w2) \<and> \<not> is_file w2 ?q" by simp
  qed
  then show ?thesis by (simp add: mkdir_parents_def)
qed

lemma parent_joinpath: "parent (joinpath p n) = p"
  by (cases p) (simp add: parent_def joinpath_def)

lemma imwrite_fields:
  "dirs (imwrite p img w) = dirs w" "cap (imwrite p img w) = cap w"
  "out (imwrite p img w) = out w" "shown (imwrite p img w) = shown w"
  by (simp_all add: imwrite_def)

lemma imwrite_is_file:
  "is_file (imwrite p img w) q \<Longrightarrow> is_file w q \<or> q = p"
  by (auto simp: imwrite_def is_file_def update_conv' split: if_splits)


lemma run_inference_image_ok:
  "mkdir_parents (Path save_dir) w = Inr w1 \<Longrightarrow>
   model (FromPath p) conf_threshold (1 / 2) = Inr results \<Longrightarrow>
   run_inference_image cv model (Some p) conf_threshold save_dir w
     = (Inr (joinpath (Path save_dir) (stem p @ ''_detected.jpg''), results),
        imwrite (joinpath (Path save_dir) (stem p @ ''_detected.jpg''))
          (cvtColor_RGB2BGR cv (plot results)) w1)"
  by (simp add: run_inference_image_def Let_def)

lemma run_inference_image_raises:
  "mkdir_parents (Path save_dir) w = Inr w1 \<Longrightarrow>
   model (FromPath p) conf_threshold (1 / 2) = Inl e \<Longrightarrow>
   run_inference_image cv model (Some p) conf_threshold save_dir w = (Inl e, w1)"
  by (simp add: run_inference_image_def)


subsection \<open>Default model resolution\<close>

text \<open>
  C10. \<^verbatim>\<open>find_latest_model\<close> fails when the directory \<^verbatim>\<open>models\<close> does not exist
  or holds no entry matching \<^verbatim>\<open>helmet_detector_best_*.pt\<close> (the version of
  \<^verbatim>\<open>Inference.py\<close> raises \<^verbatim>\<open>FileNotFoundError\<close>, the version of \<^verbatim>\<open>Api.py\<close>
  returns \<^verbatim>\<open>None\<close>, on which its caller \<^verbatim>\<open>load_model\<close> raises
  \<^verbatim>\<open>FileNotFoundError\<close>); otherwise both return one of the matching entries, and no
  matching entry has a greater modification time.
\<close>

theorem find_latest_model_latest:
  "((md = None \<or> (\<exists>es. md = Some es \<and> model_files es = [])) \<longrightarrow>
      (\<exists>msg. find_latest_model md = Inl (FileNotFoundError msg))
      \<and> api_find_latest_model md = None
      \<and> load_model md yolo None = Inl (FileNotFoundError ''No trained model found.''))
   \<and> (\<forall>es. md = Some es \<and> model_files es \<noteq> [] \<longrightarrow>
        (\<exists>e \<in> set (model_files es).
           find_latest_model md = Inr (joinpath (Path ''models'') (fst e))
           \<and> api_find_latest_model md = Some (joinpath (Path ''models'') (fst e))
           \<and> (\<forall>e' \<in> set (model_files es). snd e' \<le> snd e)))"
proof (intro conjI impI allI)
  assume "md = None \<or> (\<exists>es. md = Some es \<and> model_files es = [])"
  then show "\<exists>msg. find_latest_model md = Inl (FileNotFoundError msg)"
    by (auto simp: find_latest_model_def)
next
  assume "md = None \<or> (\<exists>es. md = Some es \<and> model_files es = [])"
  then show "api_find_latest_model md = None"
    by (auto simp: api_find_latest_model_def)
next
  assume "md = None \<or> (\<exists>es. md = Some es \<and> model_files es = [])"
  then show "load_model md yolo None = Inl (FileNotFoundError ''No trained model found.'')"
    by (auto simp: load_model_def api_find_latest_model_def)
next
  fix es
  assume a: "md = Some es \<and> model_files es \<noteq> []"
  then obtain f fs where fs: "model_files es = f # fs"
    by (cases "model_files es") auto
  let ?e = "max_by snd f fs"
  have mem: "?e \<in> set (model_files es)"
    using max_by_mem [of snd f fs] fs by simp
  have top: "\<forall>e' \<in> set (model_files es). snd e' \<le> snd ?e"
    using max_by_greatest [of _ f fs snd] fs by simp
  have r1: "find_latest_model md = Inr (joinpath (Path ''models'') (fst ?e))"
    using a fs by (simp add: find_latest_model_def)
  have r2: "api_find_latest_model md = Some (joinpath (Path ''models'') (fst ?e))"
    using a fs by (simp add: api_find_latest_model_def)
  from mem top r1 r2
  show "\<exists>e \<in> set (model_files es).
           find_latest_model md = Inr (joinpath (Path ''models'') (fst e))
           \<and> api_find_latest_model md = Some (joinpath (Path ''models'') (fst e))
           \<and> (\<forall>e' \<in> set (model_files es). snd e' \<le> snd e)"
    by blast
qed

theorem find_latest_model_latest_witness:
  "find_latest_model None = Inl (FileNotFoundError ''No models directory found.'')
   \<and> api_find_latest_model None = None
   \<and> model_files [(''helmet_detector_best_a.pt'', 3), (''helmet_detector_best_b.pt'', 9),
         (''helmet_detector_best_c.pt'', 9), (''readme.md'', 20)] \<noteq> []
   \<and> find_latest_model (Some [(''helmet_detector_best_a.pt'', 3),
         (''helmet_detector_best_b.pt'', 9), (''helmet_detector_best_c.pt'', 9),
         (''readme.md'', 20)])
       = Inr (PurePath False [''models'', ''helmet_detector_best_b.pt''])"
  using find_latest_model_latest [of None]
    find_latest_model_latest [of "Some [(''helmet_detector_best_a.pt'', 3),
         (''helmet_detector_best_b.pt'', 9), (''helmet_detector_best_c.pt'', 9),
         (''readme.md'', 20)]"]
  by (simp add: find_latest_model_def api_find_latest_model_def model_files_def
      fnmatch_star_def joinpath_def Path_def)

lemma name_joinpath: "name (joinpath p n) = n"
proof -
  obtain x xs where c: "parts p @ [n] = x # xs" by (cases "parts p @ [n]") auto
  then have "name (joinpath p n) = last (x # xs)" by (simp add: name_def joinpath_def)
  also have "\<dots> = last (parts p @ [n])" using c by simp
  finally show ?thesis by simp
qed

text \<open>
  C7 (as the code has it). When \<^verbatim>\<open>run_inference_image\<close> returns, the output path is
  \<^verbatim>\<open>save_dir / (stem(image_path) + "_detected.jpg")\<close>: the extension is always
  \<^verbatim>\<open>.jpg\<close>, whatever the extension of the source. The output directory exists
  afterwards (it is created with its ancestors when absent, and no directory is removed),
  and unless a directory already stands at the output path, the file there holds the
  annotated image.
\<close>

theorem run_inference_image_output_name:
  assumes "run_inference_image cv model (Some p) conf_threshold save_dir w
             = (Inr (output_path, results), w')"
  shows "output_path = joinpath (Path save_dir) (stem p @ ''_detected.jpg'')
     \<and> name output_path = stem p @ ''_detected.jpg''
     \<and> parent output_path = Path save_dir
     \<and> is_dir w' (Path save_dir)
     \<and> set (dirs w) \<subseteq> set (dirs w')
     \<and> (output_path \<notin> set (dirs w) \<longrightarrow>
          map_of (files w') output_path = Some (cvtColor_RGB2BGR cv (plot results)))"
proof -
  let ?out = "joinpath (Path save_dir) (stem p @ ''_detected.jpg'')"
  from assms obtain w1 where m: "mkdir_parents (Path save_dir) w = Inr w1"
    by (cases "mkdir_parents (Path save_dir) w") (auto simp: run_inference_image_def)
  from assms m have r: "model (FromPath p) conf_threshold (1 / 2) = Inr results"
    by (cases "model (FromPath p) conf_threshold (1 / 2)")
       (auto simp: run_inference_image_def Let_def)
  from run_inference_image_ok [where model = model and cv = cv, OF m r] assms
  have out: "output_path = ?out"
    and w': "w' = imwrite ?out (cvtColor_RGB2BGR cv (plot results)) w1"
    by simp_all
  have d1: "is_dir w1 (Path save_dir)" by (rule mkdir_parents_ok(6) [OF m])
  have sub: "set (dirs w) \<subseteq> set (dirs w1)" by (rule mkdir_parents_ok(5) [OF m])
  have dirs': "dirs w' = dirs w1" using w' by (simp add: imwrite_fields)
  have written: "map_of (files w') ?out = Some (cvtColor_RGB2BGR cv (plot results))"
    if "?out \<notin> set (dirs w)"
  proof -
    have "?out \<notin> set (dirs w1)"
    proof
      assume "?out \<in> set (dirs w1)"
      from mkdir_parents_ok(7) [OF m this that]
      show False by (simp add: joinpath_def)
    qed
    with d1 show ?thesis
      using w' by (simp add: imwrite_def parent_joinpath update_conv')
  qed
  from out d1 sub dirs' written show ?thesis
    by (simp add: name_joinpath parent_joinpath is_dir_def)
qed


lemma sample_image_run:
  "run_inference_image sample_cv sample_model (Some (Path ''photo.png'')) (1 / 4)
     ''results/inference'' empty_world
   = (Inr (PurePath False [''results'', ''inference'', ''photo_detected.jpg''],
           \<lparr>boxes = [()], plot = 1\<rparr>),
      \<lparr>dirs = [PurePath False [''results''], PurePath False [''results'', ''inference'']],
       files = [(PurePath False [''results'', ''inference'', ''photo_detected.jpg''], 1)],
       cap = None, out = None, shown = []\<rparr>)"
  by code_simp

theorem run_inference_image_output_name_witness:
  "run_inference_image sample_cv sample_model (Some (Path ''photo.png'')) (1 / 4)
     ''results/inference'' empty_world
   = (Inr (PurePath False [''results'', ''inference'', ''photo_detected.jpg''],
           \<lparr>boxes = [()], plot = 1\<rparr>),
      \<lparr>dirs = [PurePath False [''results''], PurePath False [''results'', ''inference'']],
       files = [(PurePath False [''results'', ''inference'', ''photo_detected.jpg''], 1)],
       cap = None, out = None, shown = []\<rparr>)
   \<and> name (PurePath False [''results'', ''inference'', ''photo_detected.jpg''])
       = stem (Path ''photo.png'') @ ''_detected.jpg''
   \<and> PurePath False [''results'', ''inference'', ''photo_detected.jpg'']
         \<notin> set (dirs empty_world)"
proof -
  note h = sample_image_run
  from run_inference_image_output_name [OF h]
  have "name (PurePath False [''results'', ''inference'', ''photo_detected.jpg''])
          = stem (Path ''photo.png'') @ ''_detected.jpg''"
    by blast
  moreover have "PurePath False [''results'', ''inference'', ''photo_detected.jpg'']
                   \<notin> set (dirs empty_world)"
    by (simp add: empty_world_def)
  ultimately show ?thesis using h by blast
qed

text \<open>
  C7 as stated fails: for \<^verbatim>\<open>photo.png\<close> the output is named
  \<^verbatim>\<open>photo_detected.jpg\<close>, not \<^verbatim>\<open>photo_detected.png\<close>.
\<close>

theorem output_name_extension_counterexample:
  "(case fst (run_inference_image sample_cv sample_model (Some (Path ''photo.png'')) (1 / 4)
               ''results/inference'' empty_world) of
      Inl e \<Rightarrow> [] | Inr (output_path, results) \<Rightarrow> name output_path)
     = ''photo_detected.jpg''
   \<and> ''photo_detected.jpg'' \<noteq> stem (Path ''photo.png'') @ ''_detected'' @ ''.png''"
  by (simp add: sample_image_run name_def)


lemma run_inference_video_returns:
  assumes "run_inference_video videos model video_path conf_threshold save_dir w
             = (Inr (output_path, st), w')"
  obtains w1 vp w4 where
    "mkdir_parents (Path save_dir) w = Inr w1"
    "video_path = Some vp"
    "output_path = joinpath (Path save_dir) (stem (Path vp) @ ''_detected.mp4'')"
    "video_loop model conf_threshold
       (case videos (py_str video_path) of None \<Rightarrow> [] | Some x \<Rightarrow> v_frames x)
       (w1\<lparr>cap := Some \<lparr>c_opened = (videos (py_str video_path) \<noteq> None), c_releases = 0\<rparr>,
           out := Some \<lparr>w_path = output_path,
                        w_fps = (case videos (py_str video_path) of None \<Rightarrow> 0
                                 | Some x \<Rightarrow> py_int (v_fps x)),
                        w_size = (case videos (py_str video_path) of None \<Rightarrow> 0
                                  | Some x \<Rightarrow> py_int (v_width x),
                                  case videos (py_str video_path) of None \<Rightarrow> 0
                                  | Some x \<Rightarrow> py_int (v_height x)),
                        w_frames = [], w_releases = 0\<rparr>\<rparr>) 0 0
       = (Inr (stat_frame_count st, stat_detection_count st), w4)"
    "stat_avg_detections st =
       (if stat_frame_count st \<noteq> 0
        then of_nat (stat_detection_count st) / of_nat (stat_frame_count st) else 0)"
    "w' = release_out (release_cap w4)"
  using assms
  by (auto simp: run_inference_video_def Let_def
      split: sum.splits option.splits prod.splits)



lemma sample_video_run:
  "run_inference_video sample_videos sample_model (Some ''clip.mp4'') (1 / 4)
     ''results/inference'' empty_world
   = (Inr (PurePath False [''results'', ''inference'', ''clip_detected.mp4''],
           \<lparr>stat_frame_count = 3, stat_detection_count = 7, stat_avg_detections = 7 / 3\<rparr>),
      \<lparr>dirs = [PurePath False [''results''], PurePath False [''results'', ''inference'']],
       files = [], cap = Some \<lparr>c_opened = False, c_releases = 1\<rparr>,
       out = Some \<lparr>w_path = PurePath False [''results'', ''inference'', ''clip_detected.mp4''],
                   w_fps = 30, w_size = (640, 480), w_frames = [2, 0, 5], w_releases = 1\<rparr>,
       shown = []\<rparr>)"
  by code_simp

lemma sample_video_missing:
  "run_inference_video sample_videos sample_model (Some ''missing.mp4'') (1 / 4)
     ''results/inference'' empty_world
   = (Inr (PurePath False [''results'', ''inference'', ''missing_detected.mp4''],
           \<lparr>stat_frame_count = 0, stat_detection_count = 0, stat_avg_detections = 0\<rparr>),
      \<lparr>dirs = [PurePath False [''results''], PurePath False [''results'', ''inference'']],
       files = [], cap = Some \<lparr>c_opened = False, c_releases = 1\<rparr>,
       out = Some \<lparr>w_path = PurePath False [''results'', ''inference'', ''missing_detected.mp4''],
                   w_fps = 0, w_size = (0, 0), w_frames = [], w_releases = 1\<rparr>,
       shown = []\<rparr>)"
  by code_simp





text \<open>
  C5 (as the code has it). The script ends with status 0 on every invocation whose
  arguments parse: \<^verbatim>\<open>main\<close> catches whatever exception the run raises (a missing
  model, a missing or empty input directory, any other) and prints it after
  \<^verbatim>\<open>Inference failed:\<close>, and nothing sets another status.
\<close>

theorem script_exit_status:
  "exit_status (script env argv w) = 0
   \<and> printed_failure (script env (Some a) w)
       = (case fst (try_body env a w) of Inl e \<Rightarrow> Some e | Inr u \<Rightarrow> None)
   \<and> printed_failure (script env None w) = None"
proof (intro conjI)
  show "exit_status (script env argv w) = 0"
    by (cases argv) (simp_all add: script_def split: prod.splits)
  show "printed_failure (script env (Some a) w)
       = (case fst (try_body env a w) of Inl e \<Rightarrow> Some e | Inr u \<Rightarrow> None)"
    by (cases "try_body env a w") (simp add: script_def main_def split: sum.splits)
  show "printed_failure (script env None w) = None"
    by (simp add: script_def)
qed

text \<open>
  C5 as stated fails: with no \<^verbatim>\<open>models\<close> directory the run fails with
  \<^verbatim>\<open>FileNotFoundError\<close> before a model is loaded, and with a missing input directory
  the batch fails with \<^verbatim>\<open>FileNotFoundError\<close>; the status is 0 both times.
\<close>

theorem script_exit_status_counterexample:
  "fst (try_body sample_env
          \<lparr>a_source = Some ''photo.png'', a_type = Image, a_conf = 1 / 4, a_model = None\<rparr>
          empty_world) = Inl (FileNotFoundError ''No models directory found.'')
   \<and> exit_status (script sample_env
          (Some \<lparr>a_source = Some ''photo.png'', a_type = Image, a_conf = 1 / 4, a_model = None\<rparr>)
          empty_world) = 0
   \<and> fst (try_body sample_env
          \<lparr>a_source = Some ''nowhere'', a_type = Batch, a_conf = 1 / 4, a_model = Some ''best.pt''\<rparr>
          empty_world) = Inl (FileNotFoundError ''Directory not found: nowhere'')
   \<and> exit_status (script sample_env
          (Some \<lparr>a_source = Some ''nowhere'', a_type = Batch, a_conf = 1 / 4,
                 a_model = Some ''best.pt''\<rparr>)
          empty_world) = 0"
  by code_simp

lemma mkdir_parents_stable:
  "mkdir_parents p w = Inr w1 \<Longrightarrow> mkdir_parents p w1 = Inr w1"
  by (rule mkdir_parents_again) auto

lemma mkdir_parents_imwrite:
  assumes "mkdir_parents p w = Inr w"
  shows "mkdir_parents p (imwrite (joinpath p n) img w) = Inr (imwrite (joinpath p n) img w)"
proof (rule mkdir_parents_again [OF assms])
  show "dirs (imwrite (joinpath p n) img w) = dirs w" by (simp add: imwrite_fields)
next
  fix q assume "is_file (imwrite (joinpath p n) img w) q"
  then have "is_file w q \<or> q = joinpath p n" by (rule imwrite_is_file)
  moreover have "length (parts p) < length (parts (joinpath p n))" by (simp add: joinpath_def)
  ultimately show "is_file w q \<or> length (parts p) < length (parts q)" by auto
qed

lemma run_inference_image_after_mkdir:
  assumes "mkdir_parents (Path save_dir) w = Inr w1"
  shows "run_inference_image cv model image_path conf_threshold save_dir w
       = run_inference_image cv model image_path conf_threshold save_dir w1"
  using assms mkdir_parents_stable [OF assms] by (simp add: run_inference_image_def)

lemma batch_loop_after_mkdir:
  assumes "mkdir_parents (Path save_dir) w = Inr w1"
  shows "batch_loop cv model conf_threshold save_dir (p # ps) acc w
       = batch_loop cv model conf_threshold save_dir (p # ps) acc w1"
  by (simp add: run_inference_image_after_mkdir [OF assms])

lemma batch_loop_all_ok:
  assumes "mkdir_parents (Path save_dir) w = Inr w"
    and "\<forall>p \<in> set ps. \<exists>r. model (FromPath p) conf_threshold (1 / 2) = Inr r"
  shows "fst (batch_loop cv model conf_threshold save_dir ps acc w)
       = Inr (acc @ map (\<lambda>p. \<lparr>r_image = name p,
                                r_detections =
                                  (case model (FromPath p) conf_threshold (1 / 2) of
                                     Inl e \<Rightarrow> 0 | Inr r \<Rightarrow> length (boxes r)),
                                r_output = joinpath (Path save_dir)
                                             (stem p @ ''_detected.jpg'')\<rparr>) ps)"
  using assms
proof (induction ps arbitrary: acc w)
  case Nil
  then show ?case by simp
next
  case (Cons p ps)
  from Cons.prems(2) obtain r where r: "model (FromPath p) conf_threshold (1 / 2) = Inr r"
    by auto
  let ?out = "joinpath (Path save_dir) (stem p @ ''_detected.jpg'')"
  let ?w' = "imwrite ?out (cvtColor_RGB2BGR cv (plot r)) w"
  have run: "run_inference_image cv model (Some p) conf_threshold save_dir w
          = (Inr (?out, r), ?w')"
    using Cons.prems(1) r by (simp add: run_inference_image_ok)
  have st: "mkdir_parents (Path save_dir) ?w' = Inr ?w'"
    by (rule mkdir_parents_imwrite [OF Cons.prems(1)])
  have rest: "\<forall>p \<in> set ps. \<exists>r. model (FromPath p) conf_threshold (1 / 2) = Inr r"
    using Cons.prems(2) by simp
  from Cons.IH [OF st rest] run r show ?case by simp
qed








lemma upper_extensions:
  "upper ''.jpg'' = ''.JPG''" "upper ''.jpeg'' = ''.JPEG''" "upper ''.png'' = ''.PNG''"
  "upper ''.bmp'' = ''.BMP''" "upper ''.webp'' = ''.WEBP''"
  by code_simp+

lemma lower_extensions:
  "map lower image_extensions = image_extensions"
  "map (\<lambda>ext. lower (upper ext)) image_extensions = image_extensions"
  by code_simp+

lemma image_names_patterns:
  "image_names listing
     = concat (map (\<lambda>pat. filter (fnmatch_star [] pat) listing)
                 [''.jpg'', ''.JPG'', ''.jpeg'', ''.JPEG'', ''.png'', ''.PNG'',
                  ''.bmp'', ''.BMP'', ''.webp'', ''.WEBP''])"
  by (simp add: image_names_def image_extensions_def glob_star_def upper_extensions)

lemma fnmatch_suffix:
  "fnmatch_star [] suf n \<Longrightarrow> length suf \<le> length n \<and> drop (length n - length suf) n = suf"
proof -
  assume a: "fnmatch_star [] suf n"
  then have l: "length suf \<le> length n" and t: "take (length suf) (rev n) = rev suf"
    by (simp_all add: fnmatch_star_def)
  from t have "rev (drop (length n - length suf) n) = rev suf" by (simp add: take_rev)
  then show ?thesis using l by simp
qed

lemma fnmatch_key:
  "fnmatch_star [] suf n \<Longrightarrow> 4 \<le> length suf \<Longrightarrow> take 4 (rev n) = take 4 (rev suf)"
proof -
  assume a: "fnmatch_star [] suf n" and l: "4 \<le> length suf"
  from a have t: "take (length suf) (rev n) = rev suf" by (simp add: fnmatch_star_def)
  have "take 4 (rev n) = take 4 (take (length suf) (rev n))" using l by (simp add: min_def)
  then show ?thesis using t by simp
qed

lemma distinct_concat_filters:
  assumes key: "\<And>pat n. pat \<in> set pats \<Longrightarrow> P pat n \<Longrightarrow> k n = g pat"
    and "distinct (map g pats)" and "distinct xs"
  shows "distinct (concat (map (\<lambda>pat. filter (P pat) xs) pats))"
  using assms(1,2)
proof (induction pats)
  case Nil
  show ?case by simp
next
  case (Cons pat pats)
  have rest: "distinct (concat (map (\<lambda>pat. filter (P pat) xs) pats))"
    using Cons by simp
  have disj: "set (filter (P pat) xs) \<inter> set (concat (map (\<lambda>pat. filter (P pat) xs) pats)) = {}"
  proof (rule ccontr)
    assume "\<not> ?thesis"
    then obtain n pat' where n: "P pat n" "pat' \<in> set pats" "P pat' n" by auto
    then have "g pat = g pat'" using Cons.prems(1) [of pat n] Cons.prems(1) [of pat' n] by simp
    with n(2) Cons.prems(2) show False by auto
  qed
  from rest disj \<open>distinct xs\<close> show ?case by simp
qed

lemma image_names_distinct: "distinct listing \<Longrightarrow> distinct (image_names listing)"
  unfolding image_names_patterns
proof (rule distinct_concat_filters [where k = "\<lambda>n. take 4 (rev n)" and g = "\<lambda>pat. take 4 (rev pat)"])
  fix pat n
  assume "pat \<in> set [''.jpg'', ''.JPG'', ''.jpeg'', ''.JPEG'', ''.png'', ''.PNG'',
                  ''.bmp'', ''.BMP'', ''.webp'', ''.WEBP'']" and m: "fnmatch_star [] pat n"
  then have "4 \<le> length pat" by auto
  with m show "take 4 (rev n) = take 4 (rev pat)" by (rule fnmatch_key)
next
  show "distinct (map (\<lambda>pat. take 4 (rev pat)) [''.jpg'', ''.JPG'', ''.jpeg'', ''.JPEG'', ''.png'', ''.PNG'',
                  ''.bmp'', ''.BMP'', ''.webp'', ''.WEBP''])"
    by simp
qed

lemma image_names_set:
  "set (image_names listing)
     = {n \<in> set listing. \<exists>ext \<in> set image_extensions.
                             fnmatch_star [] ext n \<or> fnmatch_star [] (upper ext) n}"
  by (auto simp: image_names_def glob_star_def)

lemma lower_allowed:
  "ext \<in> set image_extensions \<Longrightarrow> lower ext = ext \<and> lower (upper ext) = ext"
proof -
  assume "ext \<in> set image_extensions"
  then obtain i where i: "i < length image_extensions" "ext = image_extensions ! i"
    by (auto simp: in_set_conv_nth)
  have "lower ext = map lower image_extensions ! i" using i by simp
  moreover have "lower (upper ext) = map (\<lambda>ext. lower (upper ext)) image_extensions ! i"
    using i by simp
  ultimately show ?thesis using i by (simp only: lower_extensions)
qed

lemma image_names_eligible: "n \<in> set (image_names listing) \<Longrightarrow> n \<in> set listing \<and> spec_eligible n"
proof -
  assume "n \<in> set (image_names listing)"
  then obtain ext where n: "n \<in> set listing" and ext: "ext \<in> set image_extensions"
    and m: "fnmatch_star [] ext n \<or> fnmatch_star [] (upper ext) n"
    unfolding image_names_set by blast
  have ul: "length (upper ext) = length ext" by (simp add: upper_def)
  from m have "length ext \<le> length n \<and> lower (drop (length n - length ext) n) = ext"
  proof
    assume "fnmatch_star [] ext n"
    from fnmatch_suffix [OF this] lower_allowed [OF ext] show ?thesis by simp
  next
    assume "fnmatch_star [] (upper ext) n"
    from fnmatch_suffix [OF this] lower_allowed [OF ext] ul show ?thesis by simp
  qed
  with n ext show ?thesis unfolding spec_eligible_def by blast
qed


lemma fnmatch_star_append: "fnmatch_star [] suf n \<longleftrightarrow> (\<exists>s. n = s @ suf)"
proof
  assume "fnmatch_star [] suf n"
  from fnmatch_suffix [OF this]
  have "n = take (length n - length suf) n @ suf"
    by (metis append_take_drop_id)
  then show "\<exists>s. n = s @ suf" ..
next
  assume "\<exists>s. n = s @ suf"
  then show "fnmatch_star [] suf n" by (auto simp: fnmatch_star_def)
qed

lemma fnmatch_star_fun: "fnmatch_star [] suf = (\<lambda>n. \<exists>s. n = s @ suf)"
  by (rule ext) (rule fnmatch_star_append)

lemma batch_inference_loop:
  assumes "listdir (Path d) = Some listing"
    and "image_files (Path d) listing \<noteq> []"
    and "mkdir_parents (Path save_dir) w = Inr w1"
  shows "batch_inference listdir cv model (Some d) conf_threshold save_dir w
       = batch_loop cv model conf_threshold save_dir (image_files (Path d) listing) [] w1"
proof -
  obtain f fs where fs: "image_files (Path d) listing = f # fs"
    using assms(2) by (cases "image_files (Path d) listing") auto
  have "batch_inference listdir cv model (Some d) conf_threshold save_dir w
          = batch_loop cv model conf_threshold save_dir (image_files (Path d) listing) [] w"
    using assms(1,2) by (simp add: batch_inference_def Let_def)
  also have "\<dots> = batch_loop cv model conf_threshold save_dir (image_files (Path d) listing) [] w1"
    unfolding fs by (rule batch_loop_after_mkdir [OF assms(3)])
  finally show ?thesis .
qed

text \<open>
  C4 (as the code has it). Every file \<^verbatim>\<open>batch_inference\<close> enumerates is an entry of
  the directory whose extension is in the allow-list, compared case-insensitively; every
  entry whose name ends with an extension of the allow-list written in lower case or in
  upper case is enumerated, and once only. The order is not lexicographic: the files come
  grouped by pattern, in the order \<^verbatim>\<open>*.jpg\<close>, \<^verbatim>\<open>*.JPG\<close>, \<^verbatim>\<open>*.jpeg\<close>,
  \<^verbatim>\<open>*.JPEG\<close>, \<^verbatim>\<open>*.png\<close>, \<^verbatim>\<open>*.PNG\<close>, \<^verbatim>\<open>*.bmp\<close>, \<^verbatim>\<open>*.BMP\<close>,
  \<^verbatim>\<open>*.webp\<close>, \<^verbatim>\<open>*.WEBP\<close>, and within a group in the order in which the
  operating system lists the directory; the files are processed and reported in that
  order.
\<close>

theorem batch_enumeration:
  "(\<forall>n \<in> set (image_names listing). n \<in> set listing \<and> spec_eligible n)
   \<and> (\<forall>n \<in> set listing. \<forall>ext \<in> set image_extensions.
         (\<exists>s. n = s @ ext \<or> n = s @ upper ext) \<longrightarrow> n \<in> set (image_names listing))
   \<and> (distinct listing \<longrightarrow> distinct (image_names listing))
   \<and> image_names listing
       = concat (map (\<lambda>pat. filter (\<lambda>n. \<exists>s. n = s @ pat) listing)
                   [''.jpg'', ''.JPG'', ''.jpeg'', ''.JPEG'', ''.png'', ''.PNG'',
                    ''.bmp'', ''.BMP'', ''.webp'', ''.WEBP''])
   \<and> (listdir (Path d) = Some listing \<and> image_names listing \<noteq> []
        \<and> (\<exists>w1. mkdir_parents (Path save_dir) w = Inr w1)
        \<and> (\<forall>p \<in> set (image_files (Path d) listing).
              \<exists>r. model (FromPath p) conf_threshold (1 / 2) = Inr r) \<longrightarrow>
        (\<exists>report.
           fst (batch_inference listdir cv model (Some d) conf_threshold save_dir w) = Inr report
           \<and> map r_image report = image_names listing))"
proof (intro conjI)
  show "\<forall>n \<in> set (image_names listing). n \<in> set listing \<and> spec_eligible n"
    using image_names_eligible by blast
  show "\<forall>n \<in> set listing. \<forall>ext \<in> set image_extensions.
         (\<exists>s. n = s @ ext \<or> n = s @ upper ext) \<longrightarrow> n \<in> set (image_names listing)"
    unfolding image_names_set fnmatch_star_append by blast
  show "distinct listing \<longrightarrow> distinct (image_names listing)"
    using image_names_distinct by blast
  show "image_names listing
       = concat (map (\<lambda>pat. filter (\<lambda>n. \<exists>s. n = s @ pat) listing)
                   [''.jpg'', ''.JPG'', ''.jpeg'', ''.JPEG'', ''.png'', ''.PNG'',
                    ''.bmp'', ''.BMP'', ''.webp'', ''.WEBP''])"
    unfolding image_names_patterns fnmatch_star_fun ..
  show "listdir (Path d) = Some listing \<and> image_names listing \<noteq> []
        \<and> (\<exists>w1. mkdir_parents (Path save_dir) w = Inr w1)
        \<and> (\<forall>p \<in> set (image_files (Path d) listing).
              \<exists>r. model (FromPath p) conf_threshold (1 / 2) = Inr r) \<longrightarrow>
        (\<exists>report.
           fst (batch_inference listdir cv model (Some d) conf_threshold save_dir w) = Inr report
           \<and> map r_image report = image_names listing)"
  proof
    assume a: "listdir (Path d) = Some listing \<and> image_names listing \<noteq> []
        \<and> (\<exists>w1. mkdir_parents (Path save_dir) w = Inr w1)
        \<and> (\<forall>p \<in> set (image_files (Path d) listing).
              \<exists>r. model (FromPath p) conf_threshold (1 / 2) = Inr r)"
    then obtain w1 where m: "mkdir_parents (Path save_dir) w = Inr w1" by blast
    from a have ne: "image_files (Path d) listing \<noteq> []" by (simp add: image_files_def)
    from a have l: "listdir (Path d) = Some listing" by blast
    from a have ok: "\<forall>p \<in> set (image_files (Path d) listing).
              \<exists>r. model (FromPath p) conf_threshold (1 / 2) = Inr r" by blast
    have st: "mkdir_parents (Path save_dir) w1 = Inr w1" by (rule mkdir_parents_stable [OF m])
    have "fst (batch_inference listdir cv model (Some d) conf_threshold save_dir w)
        = Inr ([] @ map (\<lambda>p. \<lparr>r_image = name p,
                                r_detections =
                                  (case model (FromPath p) conf_threshold (1 / 2) of
                                     Inl e \<Rightarrow> 0 | Inr r \<Rightarrow> length (boxes r)),
                                r_output = joinpath (Path save_dir)
                                             (stem p @ ''_detected.jpg'')\<rparr>)
                     (image_files (Path d) listing))"
      unfolding batch_inference_loop [where listdir = listdir, OF l ne m]
      using st ok by (rule batch_loop_all_ok)
    moreover have "map name (image_files (Path d) listing) = image_names listing"
      by (simp add: image_files_def name_joinpath comp_def)
    ultimately show "\<exists>report.
           fst (batch_inference listdir cv model (Some d) conf_threshold save_dir w) = Inr report
           \<and> map r_image report = image_names listing"
      by (simp add: comp_def)
  qed
qed


lemma sample_shots:
  "sample_listdir (Path ''shots'') = Some [''b.jpg'', ''a.PNG'', ''a.jpg'', ''notes.txt'']"
  "image_names [''b.jpg'', ''a.PNG'', ''a.jpg'', ''notes.txt''] = [''b.jpg'', ''a.jpg'', ''a.PNG'']"
  "upper ''.png'' = ''.PNG''"
  "mkdir_parents (Path ''out'') empty_world
     = Inr \<lparr>dirs = [PurePath False [''out'']], files = [], cap = None, out = None, shown = []\<rparr>"
  by code_simp+

theorem batch_enumeration_witness:
  "distinct [''b.jpg'', ''a.PNG'', ''a.jpg'', ''notes.txt'']
   \<and> distinct (image_names [''b.jpg'', ''a.PNG'', ''a.jpg'', ''notes.txt''])
   \<and> ''a.PNG'' \<in> set [''b.jpg'', ''a.PNG'', ''a.jpg'', ''notes.txt'']
   \<and> ''.png'' \<in> set image_extensions \<and> ''a.PNG'' = ''a'' @ upper ''.png''
   \<and> ''a.PNG'' \<in> set (image_names [''b.jpg'', ''a.PNG'', ''a.jpg'', ''notes.txt''])
   \<and> spec_eligible ''a.PNG''
   \<and> sample_listdir (Path ''shots'') = Some [''b.jpg'', ''a.PNG'', ''a.jpg'', ''notes.txt'']
   \<and> (\<exists>report.
         fst (batch_inference sample_listdir sample_cv sample_model (Some ''shots'') (1 / 4)
                ''out'' empty_world) = Inr report
         \<and> map r_image report = [''b.jpg'', ''a.jpg'', ''a.PNG''])"
proof -
  let ?l = "[''b.jpg'', ''a.PNG'', ''a.jpg'', ''notes.txt'']"
  note t = batch_enumeration [where listing = ?l and listdir = sample_listdir and d = "''shots''"
      and save_dir = "''out''" and w = empty_world and model = sample_model
      and conf_threshold = "1 / 4" and cv = sample_cv]
  have d: "distinct ?l" by simp
  have mem: "''a.PNG'' \<in> set ?l" by simp
  have ext: "''.png'' \<in> set image_extensions" by (simp add: image_extensions_def)
  have split: "''a.PNG'' = ''a'' @ upper ''.png''" by (simp add: sample_shots(3))
  have ok: "\<forall>p \<in> set (image_files (Path ''shots'') ?l).
              \<exists>r. sample_model (FromPath p) (1 / 4) (1 / 2) = Inr r"
    by (simp add: image_files_def sample_shots(2) sample_model_def name_joinpath)
  have ne: "image_names ?l \<noteq> []" by (simp add: sample_shots(2))
  from t d have c1: "distinct (image_names ?l)" by blast
  from t mem ext split have c2: "''a.PNG'' \<in> set (image_names ?l)" by blast
  with t have c3: "spec_eligible ''a.PNG''" by blast
  from t sample_shots(1) ne sample_shots(4) ok
  have "\<exists>report.
         fst (batch_inference sample_listdir sample_cv sample_model (Some ''shots'') (1 / 4)
                ''out'' empty_world) = Inr report
         \<and> map r_image report = image_names ?l"
    by blast
  then have c4: "\<exists>report.
         fst (batch_inference sample_listdir sample_cv sample_model (Some ''shots'') (1 / 4)
                ''out'' empty_world) = Inr report
         \<and> map r_image report = [''b.jpg'', ''a.jpg'', ''a.PNG'']"
    by (simp only: sample_shots(2))
  from d c1 mem ext split c2 c3 sample_shots(1) c4 show ?thesis by blast
qed

text \<open>
  C4 as stated fails: the same three images, listed by the operating system in two
  orders, are enumerated in two different orders, neither of them the lexicographic
  one (\<^verbatim>\<open>a.jpg\<close>, \<^verbatim>\<open>a.png\<close>, \<^verbatim>\<open>b.jpg\<close>).
\<close>

theorem batch_enumeration_counterexample:
  "image_names [''b.jpg'', ''a.png'', ''a.jpg''] = [''b.jpg'', ''a.jpg'', ''a.png'']
   \<and> image_names [''a.jpg'', ''a.png'', ''b.jpg''] = [''a.jpg'', ''b.jpg'', ''a.png'']
   \<and> [''b.jpg'', ''a.jpg'', ''a.png''] \<noteq> [''a.jpg'', ''a.png'', ''b.jpg'']
   \<and> [''a.jpg'', ''b.jpg'', ''a.png''] \<noteq> [''a.jpg'', ''a.png'', ''b.jpg'']"
  by code_simp

lemma video_loop_cap:
  "video_loop model conf_threshold frames w fc dc = (r, w') \<Longrightarrow>
     cap w' = cap w \<and> dirs w' = dirs w \<and> files w' = files w
     \<and> map_option w_releases (out w') = map_option w_releases (out w)
     \<and> map_option w_path (out w') = map_option w_path (out w)"
proof (induction frames arbitrary: w fc dc)
  case Nil
  then show ?case by auto
next
  case (Cons f frames)
  show ?case
  proof (cases "model (FromArray f) conf_threshold (1 / 2)")
    case (Inl e)
    with Cons.prems show ?thesis by auto
  next
    case (Inr res)
    with Cons.prems
    have "video_loop model conf_threshold frames (write_frame (plot res) w)
            (fc + 1) (dc + length (boxes res)) = (r, w')"
      by simp
    from Cons.IH [OF this] show ?thesis
      by (simp add: write_frame_def option.map_comp comp_def)
  qed
qed

lemma webcam_loop_cap:
  "webcam_loop model conf_threshold events w = (r, w') \<Longrightarrow>
     cap w' = cap w \<and> dirs w' = dirs w \<and> files w' = files w \<and> out w' = out w"
proof (induction events arbitrary: w)
  case Nil
  then show ?case by auto
next
  case (Cons ev events)
  obtain frame key where ev: "ev = (frame, key)" by (cases ev)
  show ?case
  proof (cases "model (FromArray frame) conf_threshold (1 / 2)")
    case (Inl e)
    with Cons.prems ev show ?thesis by auto
  next
    case (Inr res)
    show ?thesis
    proof (cases "key AND 255 = 113")
      case True
      with Cons.prems ev Inr show ?thesis by (auto simp: Let_def)
    next
      case False
      with Cons.prems ev Inr
      have "webcam_loop model conf_threshold events (w\<lparr>shown := shown w @ [plot res]\<rparr>) = (r, w')"
        by (simp add: Let_def)
      from Cons.IH [OF this] show ?thesis by simp
    qed
  qed
qed

lemma run_inference_video_raises:
  assumes "mkdir_parents (Path save_dir) w = Inr w1"
    and "run_inference_video videos model video_path conf_threshold save_dir w = (Inl e, w')"
  shows "cap w' = Some \<lparr>c_opened = (videos (py_str video_path) \<noteq> None), c_releases = 0\<rparr>"
proof (cases video_path)
  case None
  with assms show ?thesis by (auto simp: run_inference_video_def Let_def)
next
  case (Some vp)
  let ?w3 = "w1\<lparr>cap := Some \<lparr>c_opened = (videos (py_str video_path) \<noteq> None), c_releases = 0\<rparr>,
           out := Some \<lparr>w_path = joinpath (Path save_dir) (stem (Path vp) @ ''_detected.mp4''),
                        w_fps = (case videos (py_str video_path) of None \<Rightarrow> 0
                                 | Some x \<Rightarrow> py_int (v_fps x)),
                        w_size = (case videos (py_str video_path) of None \<Rightarrow> 0
                                  | Some x \<Rightarrow> py_int (v_width x),
                                  case videos (py_str video_path) of None \<Rightarrow> 0
                                  | Some x \<Rightarrow> py_int (v_height x)),
                        w_frames = [], w_releases = 0\<rparr>\<rparr>"
  let ?frames = "case videos (py_str video_path) of None \<Rightarrow> [] | Some x \<Rightarrow> v_frames x"
  obtain r w4 where loop: "video_loop model conf_threshold ?frames ?w3 0 0 = (r, w4)"
    by (cases "video_loop model conf_threshold ?frames ?w3 0 0")
  from assms Some loop have "w' = w4"
    by (auto simp: run_inference_video_def Let_def split: sum.splits)
  with video_loop_cap [OF loop] show ?thesis by simp
qed


text \<open>
  C2 (as the code has it). \<^verbatim>\<open>cap.release()\<close> stands after the loop, with no
  \<^verbatim>\<open>try\<close>/\<^verbatim>\<open>finally\<close> around it. On the paths on which the function returns (the
  source signals the end of the stream and, for the webcam, the user presses \<^verbatim>\<open>q\<close>)
  the capture is released exactly once, and so is the encoder of the video mode. When an
  exception leaves the function after the capture was opened (the detector raises on a
  frame, or the video path is \<^verbatim>\<open>None\<close>), the capture has not been released.
\<close>

theorem capture_release:
  "(\<forall>output_path st w'.
      run_inference_video videos model video_path conf_threshold save_dir w
        = (Inr (output_path, st), w') \<longrightarrow>
      map_option c_releases (cap w') = Some 1 \<and> map_option c_opened (cap w') = Some False
      \<and> map_option w_releases (out w') = Some 1)
   \<and> (\<forall>e w'.
      (\<exists>w1. mkdir_parents (Path save_dir) w = Inr w1)
      \<and> run_inference_video videos model video_path conf_threshold save_dir w = (Inl e, w') \<longrightarrow>
      map_option c_releases (cap w') = Some 0)
   \<and> (\<forall>w'.
      run_inference_webcam camera model conf_threshold w = (Inr (), w') \<longrightarrow>
      map_option c_releases (cap w') = Some 1 \<and> map_option c_opened (cap w') = Some False)
   \<and> (\<forall>e w'.
      run_inference_webcam camera model conf_threshold w = (Inl e, w') \<longrightarrow>
      map_option c_releases (cap w') = Some 0)"
proof (intro conjI allI impI)
  fix output_path st w'
  assume a: "run_inference_video videos model video_path conf_threshold save_dir w
        = (Inr (output_path, st), w')"
  from a obtain w3 w4 r where
    loop: "video_loop model conf_threshold
       (case videos (py_str video_path) of None \<Rightarrow> [] | Some x \<Rightarrow> v_frames x) w3 0 0 = (r, w4)"
    and c3: "cap w3 = Some \<lparr>c_opened = (videos (py_str video_path) \<noteq> None), c_releases = 0\<rparr>"
    and o3: "map_option w_releases (out w3) = Some 0"
    and w': "w' = release_out (release_cap w4)"
    by (rule run_inference_video_returns) simp
  from video_loop_cap [OF loop] c3 o3
  have c4: "cap w4 = Some \<lparr>c_opened = (videos (py_str video_path) \<noteq> None), c_releases = 0\<rparr>"
    and o4: "map_option w_releases (out w4) = Some 0"
    by simp_all
  from c4 w' show "map_option c_releases (cap w') = Some 1"
    by (simp add: release_out_def release_cap_def)
  from c4 w' show "map_option c_opened (cap w') = Some False"
    by (simp add: release_out_def release_cap_def)
  from o4 w' show "map_option w_releases (out w') = Some 1"
    by (auto simp: release_out_def release_cap_def)
next
  fix e w'
  assume "(\<exists>w1. mkdir_parents (Path save_dir) w = Inr w1)
      \<and> run_inference_video videos model video_path conf_threshold save_dir w = (Inl e, w')"
  then obtain w1 where "mkdir_parents (Path save_dir) w = Inr w1"
    and "run_inference_video videos model video_path conf_threshold save_dir w = (Inl e, w')"
    by blast
  from run_inference_video_raises [OF this]
  show "map_option c_releases (cap w') = Some 0" by simp
next
  fix w'
  assume a: "run_inference_webcam camera model conf_threshold w = (Inr (), w')"
  let ?w1 = "w\<lparr>cap := Some \<lparr>c_opened = (camera \<noteq> None), c_releases = 0\<rparr>\<rparr>"
  let ?ev = "case camera of None \<Rightarrow> [] | Some events \<Rightarrow> events"
  obtain r w2 where loop: "webcam_loop model conf_threshold ?ev ?w1 = (r, w2)"
    by (cases "webcam_loop model conf_threshold ?ev ?w1")
  from a loop have w': "w' = release_cap w2"
    by (auto simp: run_inference_webcam_def Let_def split: sum.splits)
  from webcam_loop_cap [OF loop] w'
  show "map_option c_releases (cap w') = Some 1" by (simp add: release_cap_def)
  from webcam_loop_cap [OF loop] w'
  show "map_option c_opened (cap w') = Some False" by (simp add: release_cap_def)
next
  fix e w'
  assume a: "run_inference_webcam camera model conf_threshold w = (Inl e, w')"
  let ?w1 = "w\<lparr>cap := Some \<lparr>c_opened = (camera \<noteq> None), c_releases = 0\<rparr>\<rparr>"
  let ?ev = "case camera of None \<Rightarrow> [] | Some events \<Rightarrow> events"
  obtain r w2 where loop: "webcam_loop model conf_threshold ?ev ?w1 = (r, w2)"
    by (cases "webcam_loop model conf_threshold ?ev ?w1")
  from a loop have w': "w' = w2"
    by (auto simp: run_inference_webcam_def Let_def split: sum.splits)
  from webcam_loop_cap [OF loop] w'
  show "map_option c_releases (cap w') = Some 0" by simp
qed


lemma sample_video_bad:
  "run_inference_video sample_videos sample_model (Some ''bad.mp4'') (1 / 4)
     ''results/inference'' empty_world
   = (Inl (LibraryError ''bad frame''),
      \<lparr>dirs = [PurePath False [''results''], PurePath False [''results'', ''inference'']],
       files = [], cap = Some \<lparr>c_opened = True, c_releases = 0\<rparr>,
       out = Some \<lparr>w_path = PurePath False [''results'', ''inference'', ''bad_detected.mp4''],
                   w_fps = 25, w_size = (320, 240), w_frames = [2], w_releases = 0\<rparr>,
       shown = []\<rparr>)"
  by code_simp

lemma sample_mkdir_results:
  "mkdir_parents (Path ''results/inference'') empty_world
     = Inr \<lparr>dirs = [PurePath False [''results''], PurePath False [''results'', ''inference'']],
            files = [], cap = None, out = None, shown = []\<rparr>"
  by code_simp

lemma sample_webcam_run:
  "run_inference_webcam sample_camera sample_model (1 / 4) empty_world
   = (Inr (), \<lparr>dirs = [], files = [], cap = Some \<lparr>c_opened = False, c_releases = 1\<rparr>,
               out = None, shown = [1, 2]\<rparr>)"
  by code_simp

lemma sample_webcam_bad:
  "run_inference_webcam (Some [(1, - 1), (13, - 1)]) sample_model (1 / 4) empty_world
   = (Inl (LibraryError ''bad frame''),
      \<lparr>dirs = [], files = [], cap = Some \<lparr>c_opened = True, c_releases = 0\<rparr>,
       out = None, shown = [1]\<rparr>)"
  by code_simp

theorem capture_release_witness:
  "map_option c_releases (cap (snd (run_inference_video sample_videos sample_model
      (Some ''clip.mp4'') (1 / 4) ''results/inference'' empty_world))) = Some 1
   \<and> (\<exists>w1. mkdir_parents (Path ''results/inference'') empty_world = Inr w1)
   \<and> fst (run_inference_video sample_videos sample_model (Some ''bad.mp4'') (1 / 4)
           ''results/inference'' empty_world) = Inl (LibraryError ''bad frame'')
   \<and> map_option c_releases (cap (snd (run_inference_video sample_videos sample_model
      (Some ''bad.mp4'') (1 / 4) ''results/inference'' empty_world))) = Some 0
   \<and> map_option c_releases (cap (snd (run_inference_webcam sample_camera sample_model
      (1 / 4) empty_world))) = Some 1
   \<and> fst (run_inference_webcam (Some [(1, - 1), (13, - 1)]) sample_model (1 / 4) empty_world)
       = Inl (LibraryError ''bad frame'')
   \<and> map_option c_releases (cap (snd (run_inference_webcam (Some [(1, - 1), (13, - 1)])
      sample_model (1 / 4) empty_world))) = Some 0"
proof -
  have m: "\<exists>w1. mkdir_parents (Path ''results/inference'') empty_world = Inr w1"
    using sample_mkdir_results by blast
  note v1 = capture_release [where videos = sample_videos and model = sample_model
      and video_path = "Some ''clip.mp4''" and conf_threshold = "1 / 4"
      and save_dir = "''results/inference''" and w = empty_world and camera = sample_camera]
  note v2 = capture_release [where videos = sample_videos and model = sample_model
      and video_path = "Some ''bad.mp4''" and conf_threshold = "1 / 4"
      and save_dir = "''results/inference''" and w = empty_world
      and camera = "Some [(1, - 1), (13, - 1)]"]
  from v1 sample_video_run
  have a: "map_option c_releases (cap (snd (run_inference_video sample_videos sample_model
      (Some ''clip.mp4'') (1 / 4) ''results/inference'' empty_world))) = Some 1"
    by (metis snd_conv)
  from v2 m sample_video_bad
  have b: "map_option c_releases (cap (snd (run_inference_video sample_videos sample_model
      (Some ''bad.mp4'') (1 / 4) ''results/inference'' empty_world))) = Some 0"
    by (metis snd_conv)
  from v1 sample_webcam_run
  have c: "map_option c_releases (cap (snd (run_inference_webcam sample_camera sample_model
      (1 / 4) empty_world))) = Some 1"
    by (metis snd_conv)
  from v2 sample_webcam_bad
  have d: "map_option c_releases (cap (snd (run_inference_webcam (Some [(1, - 1), (13, - 1)])
      sample_model (1 / 4) empty_world))) = Some 0"
    by (metis snd_conv)
  have e: "fst (run_inference_video sample_videos sample_model (Some ''bad.mp4'') (1 / 4)
           ''results/inference'' empty_world) = Inl (LibraryError ''bad frame'')"
    by (simp only: sample_video_bad fst_conv)
  have f: "fst (run_inference_webcam (Some [(1, - 1), (13, - 1)]) sample_model (1 / 4)
           empty_world) = Inl (LibraryError ''bad frame'')"
    by (simp only: sample_webcam_bad fst_conv)
  from a b c d e f m show ?thesis by blast
qed

text \<open>
  C2 as stated fails: the detector raises on the second frame of a video; the exception
  leaves \<^verbatim>\<open>run_inference_video\<close> with the capture still open and never released, and
  the encoder likewise.
\<close>

theorem capture_release_counterexample:
  "fst (run_inference_video sample_videos sample_model (Some ''bad.mp4'') (1 / 4)
          ''results/inference'' empty_world) = Inl (LibraryError ''bad frame'')
   \<and> cap (snd (run_inference_video sample_videos sample_model (Some ''bad.mp4'') (1 / 4)
          ''results/inference'' empty_world)) = Some \<lparr>c_opened = True, c_releases = 0\<rparr>
   \<and> map_option w_releases (out (snd (run_inference_video sample_videos sample_model
          (Some ''bad.mp4'') (1 / 4) ''results/inference'' empty_world))) = Some 0"
  by (simp add: sample_video_bad)

text \<open>
  C3 (as the code has it). Only the batch mode checks its source: a missing input
  directory makes \<^verbatim>\<open>batch_inference\<close> raise \<^verbatim>\<open>FileNotFoundError\<close> before anything
  is created on disk. The image mode creates the output directory first and fails only
  with the exception the detector raises for the source, before any output file is
  written. The video and webcam modes do not fail on a source that cannot be opened: the
  loop runs over no frame and the function returns, the video mode after creating the
  output directory and opening the encoder at the output path.
\<close>

theorem missing_source:
  "(listdir (Path d) = None \<longrightarrow>
      batch_inference listdir cv model (Some d) conf_threshold save_dir w
        = (Inl (FileNotFoundError (''Directory not found: '' @ d)), w))
   \<and> (\<forall>e w1. mkdir_parents (Path save_dir) w = Inr w1
          \<and> model (FromPath p) conf_threshold (1 / 2) = Inl e \<longrightarrow>
        run_inference_image cv model (Some p) conf_threshold save_dir w = (Inl e, w1)
        \<and> files w1 = files w)
   \<and> (\<forall>w1. videos vp = None \<and> mkdir_parents (Path save_dir) w = Inr w1 \<longrightarrow>
        (\<exists>w'. run_inference_video videos model (Some vp) conf_threshold save_dir w
                = (Inr (joinpath (Path save_dir) (stem (Path vp) @ ''_detected.mp4''),
                        \<lparr>stat_frame_count = 0, stat_detection_count = 0,
                         stat_avg_detections = 0\<rparr>), w')
              \<and> files w' = files w
              \<and> map_option w_path (out w')
                  = Some (joinpath (Path save_dir) (stem (Path vp) @ ''_detected.mp4''))
              \<and> map_option w_frames (out w') = Some []))
   \<and> (\<exists>w'. run_inference_webcam None model conf_threshold w = (Inr (), w')
             \<and> files w' = files w \<and> dirs w' = dirs w)"
proof (intro conjI allI impI)
  assume "listdir (Path d) = None"
  then show "batch_inference listdir cv model (Some d) conf_threshold save_dir w
        = (Inl (FileNotFoundError (''Directory not found: '' @ d)), w)"
    by (simp add: batch_inference_def)
next
  fix e w1
  assume a: "mkdir_parents (Path save_dir) w = Inr w1
          \<and> model (FromPath p) conf_threshold (1 / 2) = Inl e"
  then show "run_inference_image cv model (Some p) conf_threshold save_dir w = (Inl e, w1)"
    by (simp add: run_inference_image_raises)
  from a have "mkdir_parents (Path save_dir) w = Inr w1" by blast
  then show "files w1 = files w" by (rule mkdir_parents_ok(1))
next
  fix w1
  assume a: "videos vp = None \<and> mkdir_parents (Path save_dir) w = Inr w1"
  then have "mkdir_parents (Path save_dir) w = Inr w1" by blast
  then have f: "files w1 = files w" by (rule mkdir_parents_ok(1))
  from a f
  show "\<exists>w'. run_inference_video videos model (Some vp) conf_threshold save_dir w
                = (Inr (joinpath (Path save_dir) (stem (Path vp) @ ''_detected.mp4''),
                        \<lparr>stat_frame_count = 0, stat_detection_count = 0,
                         stat_avg_detections = 0\<rparr>), w')
              \<and> files w' = files w
              \<and> map_option w_path (out w')
                  = Some (joinpath (Path save_dir) (stem (Path vp) @ ''_detected.mp4''))
              \<and> map_option w_frames (out w') = Some []"
    by (simp add: run_inference_video_def py_str_def Let_def release_out_def release_cap_def)
next
  show "\<exists>w'. run_inference_webcam None model conf_threshold w = (Inr (), w')
             \<and> files w' = files w \<and> dirs w' = dirs w"
    by (simp add: run_inference_webcam_def release_cap_def)
qed

lemma sample_missing_facts:
  "sample_listdir (Path ''nowhere'') = None"
  "sample_videos ''missing.mp4'' = None"
  "sample_model (FromPath (Path ''broken.jpg'')) (1 / 4) (1 / 2)
     = Inl (LibraryError ''cannot read image'')"
  by code_simp+

theorem missing_source_witness:
  "sample_listdir (Path ''nowhere'') = None
   \<and> batch_inference sample_listdir sample_cv sample_model (Some ''nowhere'') (1 / 4)
        ''results/inference'' empty_world
       = (Inl (FileNotFoundError (''Directory not found: '' @ ''nowhere'')), empty_world)
   \<and> sample_model (FromPath (Path ''broken.jpg'')) (1 / 4) (1 / 2)
       = Inl (LibraryError ''cannot read image'')
   \<and> fst (run_inference_image sample_cv sample_model (Some (Path ''broken.jpg'')) (1 / 4)
            ''results/inference'' empty_world) = Inl (LibraryError ''cannot read image'')
   \<and> sample_videos ''missing.mp4'' = None
   \<and> (\<exists>w'. run_inference_video sample_videos sample_model (Some ''missing.mp4'') (1 / 4)
               ''results/inference'' empty_world
             = (Inr (joinpath (Path ''results/inference'')
                       (stem (Path ''missing.mp4'') @ ''_detected.mp4''),
                     \<lparr>stat_frame_count = 0, stat_detection_count = 0,
                      stat_avg_detections = 0\<rparr>), w'))"
proof -
  note t = missing_source [where listdir = sample_listdir and d = "''nowhere''"
      and cv = sample_cv and model = sample_model and conf_threshold = "1 / 4"
      and save_dir = "''results/inference''" and w = empty_world
      and p = "Path ''broken.jpg''" and videos = sample_videos and vp = "''missing.mp4''"]
  from t sample_missing_facts(1)
  have a: "batch_inference sample_listdir sample_cv sample_model (Some ''nowhere'') (1 / 4)
        ''results/inference'' empty_world
       = (Inl (FileNotFoundError (''Directory not found: '' @ ''nowhere'')), empty_world)"
    by blast
  from t sample_mkdir_results sample_missing_facts(3)
  have "run_inference_image sample_cv sample_model (Some (Path ''broken.jpg'')) (1 / 4)
            ''results/inference'' empty_world
        = (Inl (LibraryError ''cannot read image''),
           \<lparr>dirs = [PurePath False [''results''], PurePath False [''results'', ''inference'']],
            files = [], cap = None, out = None, shown = []\<rparr>)"
    by blast
  then have b: "fst (run_inference_image sample_cv sample_model (Some (Path ''broken.jpg''))
            (1 / 4) ''results/inference'' empty_world) = Inl (LibraryError ''cannot read image'')"
    by (simp only: fst_conv)
  from t sample_mkdir_results sample_missing_facts(2)
  have c: "\<exists>w'. run_inference_video sample_videos sample_model (Some ''missing.mp4'') (1 / 4)
               ''results/inference'' empty_world
             = (Inr (joinpath (Path ''results/inference'')
                       (stem (Path ''missing.mp4'') @ ''_detected.mp4''),
                     \<lparr>stat_frame_count = 0, stat_detection_count = 0,
                      stat_avg_detections = 0\<rparr>), w')"
    by blast
  from a b c sample_missing_facts show ?thesis by blast
qed

text \<open>
  C3 as stated fails in the video mode: for a path at which there is no video the
  function does not fail; it returns the output path after opening the encoder there.
\<close>

theorem missing_source_counterexample:
  "sample_videos ''missing.mp4'' = None
   \<and> fst (run_inference_video sample_videos sample_model (Some ''missing.mp4'') (1 / 4)
            ''results/inference'' empty_world)
       = Inr (PurePath False [''results'', ''inference'', ''missing_detected.mp4''],
              \<lparr>stat_frame_count = 0, stat_detection_count = 0, stat_avg_detections = 0\<rparr>)
   \<and> map_option w_path (out (snd (run_inference_video sample_videos sample_model
            (Some ''missing.mp4'') (1 / 4) ''results/inference'' empty_world)))
       = Some (PurePath False [''results'', ''inference'', ''missing_detected.mp4''])"
  by (simp add: sample_video_missing sample_missing_facts)

end
